theory Spec2Isabelle
  imports Main
begin

section \<open>Data model\<close>

text \<open>
  The notebook \<^verbatim>\<open>notebooks/7-ExpandedContent-Week3.ipynb\<close> works on a list of
  Python dicts (one per text chunk). A dict is a partial map from field names to
  values. The values that occur are identifiers, numbers and text; Python's \<^verbatim>\<open>==\<close>
  on these three kinds is structural equality.
\<close>

datatype pyval = PNone | PInt int | PStr string

type_synonym pydict = "string \<rightharpoonup> pyval"

text \<open>The exceptions the modelled cells can raise.\<close>

datatype error = ValueError | KeyError | AssertionError | TypeError | NameError

section \<open>Grouper: \<^verbatim>\<open>groupby_episode\<close>\<close>

text \<open>
  \<^verbatim>\<open>
  def groupby_episode(data, key_field='video_id'):
      episodes = []
      for _, group in groupby(data, lambda x: x[key_field]):
          episode = [chunk for chunk in group]
          episodes.append(episode)
      return episodes
  \<close>
  \<^verbatim>\<open>itertools.groupby\<close> reads the next record, computes its key (\<^verbatim>\<open>x[key_field]\<close>
  raises KeyError on a dict without the field) and yields the records that follow
  while their key equals the key of the first record of the group.
  \<open>collect_group\<close> is the inner iterator of one group: it returns the records that
  continue the group and the records that are left.
\<close>

fun collect_group :: "string \<Rightarrow> pyval \<Rightarrow> pydict list \<Rightarrow> error + (pydict list \<times> pydict list)" where
  "collect_group key_field tgtkey [] = Inr ([], [])"
| "collect_group key_field tgtkey (x # xs) =
     (case x key_field of
        None \<Rightarrow> Inl KeyError
      | Some currkey \<Rightarrow>
          if currkey = tgtkey then
            (case collect_group key_field tgtkey xs of
               Inl e \<Rightarrow> Inl e
             | Inr (grp, rest) \<Rightarrow> Inr (x # grp, rest))
          else Inr ([], x # xs))"

lemma collect_group_length:
  "collect_group key_field tgtkey xs = Inr (grp, rest) \<Longrightarrow> length rest \<le> length xs"
  by (induction xs arbitrary: grp rest)
     (auto split: option.splits if_splits sum.splits prod.splits)

function groupby_episode :: "pydict list \<Rightarrow> string \<Rightarrow> error + pydict list list" where
  "groupby_episode [] key_field = Inr []"
| "groupby_episode (x # xs) key_field =
     (case x key_field of
        None \<Rightarrow> Inl KeyError
      | Some tgtkey \<Rightarrow>
          (case collect_group key_field tgtkey xs of
             Inl e \<Rightarrow> Inl e
           | Inr (grp, rest) \<Rightarrow>
               (case groupby_episode rest key_field of
                  Inl e \<Rightarrow> Inl e
                | Inr episodes \<Rightarrow> Inr ((x # grp) # episodes))))"
  by pat_completeness auto
termination
  by (relation "measure (\<lambda>(data, key_field). length data)")
     (auto dest: collect_group_length simp: less_Suc_eq_le)

text \<open>
  The properties of the Grouper are stated with the notion of a run: a non-empty list of
  records that all carry the key of its first record. A list of runs is a run
  decomposition when neighbouring runs have different keys (each run is maximal).
\<close>

definition group_key :: "string \<Rightarrow> pydict list \<Rightarrow> pyval option" where
  "group_key key_field g = (case g of [] \<Rightarrow> None | x # _ \<Rightarrow> x key_field)"

definition is_run :: "string \<Rightarrow> pydict list \<Rightarrow> bool" where
  "is_run key_field g \<longleftrightarrow>
     g \<noteq> [] \<and> group_key key_field g \<noteq> None \<and>
     list_all (\<lambda>r. r key_field = group_key key_field g) g"

definition is_runs :: "string \<Rightarrow> pydict list list \<Rightarrow> bool" where
  "is_runs key_field gs \<longleftrightarrow>
     list_all (is_run key_field) gs \<and> distinct_adj (map (group_key key_field) gs)"

section \<open>Window Expander: \<^verbatim>\<open>create_expanded_content\<close>\<close>

text \<open>
  Python's \<^verbatim>\<open>xs[start:stop]\<close> for integer bounds: a negative bound counts from the
  end, and both bounds are clamped to the list.
\<close>

definition py_slice :: "'a list \<Rightarrow> int \<Rightarrow> int \<Rightarrow> 'a list" where
  "py_slice xs start stop =
     (let n = int (length xs);
          s = (if start < 0 then max 0 (start + n) else min start n);
          e = (if stop < 0 then max 0 (stop + n) else min stop n)
      in take (nat (e - s)) (drop (nat s) xs))"

text \<open>
  \<^verbatim>\<open>' '.join(seq)\<close>: the items separated by one space; TypeError when an item is
  not a \<^verbatim>\<open>str\<close>.
\<close>

fun space_join :: "string list \<Rightarrow> string" where
  "space_join [] = []"
| "space_join [s] = s"
| "space_join (s # t # ts) = s @ '' '' @ space_join (t # ts)"

fun strs_of :: "pyval list \<Rightarrow> string list option" where
  "strs_of [] = Some []"
| "strs_of (PStr s # vs) = map_option ((#) s) (strs_of vs)"
| "strs_of (_ # vs) = None"

definition str_join :: "pyval list \<Rightarrow> error + string" where
  "str_join vs = (case strs_of vs of None \<Rightarrow> Inl TypeError | Some ss \<Rightarrow> Inr (space_join ss))"

text \<open>A loop or comprehension whose body may raise stops at the first exception.\<close>

fun map_result :: "('a \<Rightarrow> error + 'b) \<Rightarrow> 'a list \<Rightarrow> error + 'b list" where
  "map_result f [] = Inr []"
| "map_result f (x # xs) =
     (case f x of
        Inl e \<Rightarrow> Inl e
      | Inr y \<Rightarrow> (case map_result f xs of Inl e \<Rightarrow> Inl e | Inr ys \<Rightarrow> Inr (y # ys)))"

text \<open>
  The inner loop over one episode:
  \<^verbatim>\<open>
  for i, chunk in enumerate(episode):
      start = max(0, i-window_size)
      end = i+window_size+1
      expanded_content = ' '.join(episode[start:end])
      episode_container.append(expanded_content)
  \<close>
\<close>

definition expand_episode :: "pyval list \<Rightarrow> int \<Rightarrow> error + string list" where
  "expand_episode episode window_size =
     map_result
       (\<lambda>i. let start = max 0 (int i - window_size);
                end = int i + window_size + 1
            in str_join (py_slice episode start end))
       [0..<length episode]"

text \<open>The outer loop \<^verbatim>\<open>for episode in tqdm(chunk_list)\<close>.\<close>

definition expand_chunk_list :: "pyval list list \<Rightarrow> int \<Rightarrow> error + string list list" where
  "expand_chunk_list chunk_list window_size =
     map_result (\<lambda>episode. expand_episode episode window_size) chunk_list"

text \<open>
  \<^verbatim>\<open>[[d['content'] for d in alist] for alist in episodes]\<close>; KeyError on a record
  without the field.
\<close>

definition get_content :: "pydict \<Rightarrow> error + pyval" where
  "get_content d = (case d ''content'' of None \<Rightarrow> Inl KeyError | Some v \<Rightarrow> Inr v)"

definition extract_content :: "pydict list list \<Rightarrow> error + pyval list list" where
  "extract_content episodes = map_result (map_result get_content) episodes"

text \<open>
  Python's truth value of an optional list argument: \<^verbatim>\<open>None\<close> and the empty list are
  both false.
\<close>

definition truthy :: "'a list option \<Rightarrow> bool" where
  "truthy x = (case x of None \<Rightarrow> False | Some xs \<Rightarrow> xs \<noteq> [])"

text \<open>
  \<^verbatim>\<open>
  def create_expanded_content(data=None, chunk_list=None, window_size=1,
                              num_episodes=193, key_field='video_id'):
      if not data and not chunk_list:
          raise ValueError("Either data or a chunk_list must be passed as an arg")
      if data:
          episodes = groupby_episode(data, key_field)
          assert len(episodes) == num_episodes, ...
          chunk_list = [[d['content'] for d in alist] for alist in episodes]
      expanded_contents = []
      for episode in tqdm(chunk_list):
          ...
      return expanded_contents
  \<close>
  The parameter \<open>chunk_list\<close> is annotated \<^verbatim>\<open>list[list[str]]\<close>, so a caller's chunk
  list is a list of lists of strings. After the guard, a false \<open>data\<close> implies a
  non-empty \<open>chunk_list\<close>; the branch for \<open>None\<close> there cannot be reached.
\<close>

definition create_expanded_content ::
  "pydict list option \<Rightarrow> string list list option \<Rightarrow> int \<Rightarrow> int \<Rightarrow> string
     \<Rightarrow> error + string list list" where
  "create_expanded_content data chunk_list window_size num_episodes key_field =
     (if \<not> truthy data \<and> \<not> truthy chunk_list then Inl ValueError
      else
        (case
           (case data of
              Some (d # ds) \<Rightarrow>
                (case groupby_episode (d # ds) key_field of
                   Inl e \<Rightarrow> Inl e
                 | Inr episodes \<Rightarrow>
                     if int (length episodes) = num_episodes then extract_content episodes
                     else Inl AssertionError)
            | _ \<Rightarrow>
                (case chunk_list of
                   Some cl \<Rightarrow> Inr (map (map PStr) cl)
                 | None \<Rightarrow> Inl TypeError))
         of
           Inl e \<Rightarrow> Inl e
         | Inr chunks \<Rightarrow> expand_chunk_list chunks window_size))"

text \<open>The default arguments of \<^verbatim>\<open>create_expanded_content\<close>.\<close>

definition default_window_size :: int where
  "default_window_size = 1"

definition default_num_episodes :: int where
  "default_num_episodes = 193"

definition default_key_field :: string where
  "default_key_field = ''video_id''"

text \<open>
  The window of the specification: for position \<open>i\<close> in a group \<open>g\<close> and radius
  \<open>w\<close>, the positions \<open>max 0 (i - w)\<close> to \<open>min (n - 1) (i + w)\<close> inclusive, in
  ascending order, and the space-joined contents at these positions.
\<close>

definition window_positions :: "nat \<Rightarrow> int \<Rightarrow> nat \<Rightarrow> int list" where
  "window_positions n w i = [max 0 (int i - w) .. min (int n - 1) (int i + w)]"

definition window_text :: "string list \<Rightarrow> int \<Rightarrow> nat \<Rightarrow> string" where
  "window_text g w i = space_join (map (\<lambda>j. g ! nat j) (window_positions (length g) w i))"

section \<open>Field Joiner: the length check, \<^verbatim>\<open>join_expanded_content\<close> and the post-check\<close>

text \<open>
  The check that precedes the join in the assignment cell:
  \<^verbatim>\<open>
  flat_length = len(flattened_content)
  data_legnth = len(data)
  assert flat_length == data_length, 'Mismatch in lengths. ...'
  \<close>
  The cell runs at the top level of the notebook, so its names live in the global
  namespace; \<open>globals\<close> is the integer-valued part of it. The second line binds
  \<^verbatim>\<open>data_legnth\<close>, the third reads \<^verbatim>\<open>data_length\<close>; reading an unbound name raises
  NameError. In the cell as shipped \<^verbatim>\<open>flattened_content\<close> is still the placeholder
  \<^verbatim>\<open>None\<close>, on which \<^verbatim>\<open>len\<close> raises TypeError.
\<close>

definition azimuth_check ::
  "(string \<rightharpoonup> int) \<Rightarrow> 'a list option \<Rightarrow> 'b list \<Rightarrow> error + (string \<rightharpoonup> int)" where
  "azimuth_check globals flattened_content data =
     (case flattened_content of
        None \<Rightarrow> Inl TypeError
      | Some fc \<Rightarrow>
          (let g1 = globals(''flat_length'' \<mapsto> int (length fc));
               g2 = g1(''data_legnth'' \<mapsto> int (length data))
           in case g2 ''flat_length'' of
                None \<Rightarrow> Inl NameError
              | Some flat_length \<Rightarrow>
                  (case g2 ''data_length'' of
                     None \<Rightarrow> Inl NameError
                   | Some data_length \<Rightarrow>
                       if flat_length = data_length then Inr g2 else Inl AssertionError)))"

text \<open>
  \<^verbatim>\<open>
  def join_expanded_content(data, flattened_content):
      """Updates data with an expanded_content key."""
      return data
  \<close>
  Between the docstring and the return statement the notebook has only the markers of
  the exercise; the function as it stands returns its first argument.
\<close>

definition join_expanded_content :: "pydict list \<Rightarrow> 'a \<Rightarrow> pydict list" where
  "join_expanded_content data flattened_content = data"

text \<open>
  \<^verbatim>\<open>
  for d in data:
      assert d.get('expanded_content', -1) != -1
  \<close>
\<close>

definition dict_get :: "pydict \<Rightarrow> string \<Rightarrow> pyval \<Rightarrow> pyval" where
  "dict_get d k dflt = (case d k of None \<Rightarrow> dflt | Some v \<Rightarrow> v)"

definition post_check :: "pydict list \<Rightarrow> error + unit" where
  "post_check data =
     (if list_all (\<lambda>d. dict_get d ''expanded_content'' (PInt (- 1)) \<noteq> PInt (- 1)) data
      then Inr () else Inl AssertionError)"

section \<open>Example inputs\<close>

text \<open>
  A record with the two fields the transform reads, and the inputs at which the
  theorems below are instantiated.
\<close>

definition chunk :: "pyval \<Rightarrow> string \<Rightarrow> pydict" where
  "chunk vid text = [''video_id'' \<mapsto> vid, ''content'' \<mapsto> PStr text]"

definition episode_abcd :: "pydict list" where
  "episode_abcd =
     [chunk (PStr ''e1'') ''A'', chunk (PStr ''e1'') ''B'',
      chunk (PStr ''e1'') ''C'', chunk (PStr ''e1'') ''D'']"

definition interleaved :: "pydict list" where
  "interleaved =
     [chunk (PStr ''e1'') ''A'', chunk (PStr ''e2'') ''B'', chunk (PStr ''e1'') ''C'']"

definition two_episodes :: "pydict list" where
  "two_episodes =
     [chunk (PStr ''e1'') ''A'', chunk (PStr ''e1'') ''B'', chunk (PStr ''e2'') ''C'']"

definition runs_193 :: "pydict list list" where
  "runs_193 = map (\<lambda>i. [chunk (PInt (int i)) ''a'']) [0..<193]"

section \<open>Lemmas about the Grouper\<close>

lemma collect_group_split:
  "collect_group kf k xs = Inr (g, rest) \<Longrightarrow>
     xs = g @ rest \<and> (\<forall>r \<in> set g. r kf = Some k) \<and>
     (case rest of [] \<Rightarrow> True | y # _ \<Rightarrow> y kf \<noteq> None \<and> y kf \<noteq> Some k)"
  by (induction xs arbitrary: g rest)
     (auto split: option.splits if_splits sum.splits prod.splits)

lemma collect_group_total:
  "\<forall>r \<in> set xs. r kf \<noteq> None \<Longrightarrow> \<exists>g rest. collect_group kf k xs = Inr (g, rest)"
  by (induction xs) (auto split: option.splits if_splits sum.splits prod.splits)

lemma collect_group_append:
  "\<forall>r \<in> set g. r kf = Some k \<Longrightarrow>
   (case rest of [] \<Rightarrow> True | y # _ \<Rightarrow> y kf \<noteq> None \<and> y kf \<noteq> Some k) \<Longrightarrow>
   collect_group kf k (g @ rest) = Inr (g, rest)"
  by (induction g) (auto split: list.splits option.splits)

lemma collect_group_error:
  "collect_group kf k xs = Inl e \<Longrightarrow> e = KeyError"
  by (induction xs) (auto split: option.splits if_splits sum.splits prod.splits)

lemma groupby_episode_sound:
  "groupby_episode d kf = Inr eps \<Longrightarrow> concat eps = d \<and> is_runs kf eps"
proof (induction d kf arbitrary: eps rule: groupby_episode.induct)
  case (1 kf)
  then show ?case by (simp add: is_runs_def)
next
  case (2 x xs kf)
  from "2.prems" obtain k where k: "x kf = Some k"
    by (auto split: option.splits)
  from "2.prems" k obtain g rest where c: "collect_group kf k xs = Inr (g, rest)"
    by (auto split: sum.splits)
  from "2.prems" k c obtain eps' where r: "groupby_episode rest kf = Inr eps'"
    and e: "eps = (x # g) # eps'"
    by (auto split: sum.splits)
  from "2.IH"[OF k c refl r] have ih: "concat eps' = rest" "is_runs kf eps'" by simp_all
  from collect_group_split[OF c] have s: "xs = g @ rest" "\<forall>r \<in> set g. r kf = Some k"
    "case rest of [] \<Rightarrow> True | y # _ \<Rightarrow> y kf \<noteq> None \<and> y kf \<noteq> Some k" by simp_all
  have run: "is_run kf (x # g)"
    using k s(2) by (simp add: is_run_def group_key_def list_all_iff)
  have adj: "distinct_adj (map (group_key kf) ((x # g) # eps'))"
  proof (cases eps')
    case Nil
    then show ?thesis by simp
  next
    case (Cons g' gs')
    with ih(2) have "is_run kf g'" by (simp add: is_runs_def)
    then obtain y ys where g': "g' = y # ys" by (cases g') (auto simp: is_run_def)
    with Cons ih(1) have "rest = y # ys @ concat gs'" by simp
    with s(3) have "y kf \<noteq> Some k" by simp
    with Cons g' k ih(2) show ?thesis
      by (simp add: is_runs_def group_key_def)
  qed
  show ?case using e ih s(1) run adj by (simp add: is_runs_def)
qed

lemma groupby_episode_total:
  "\<forall>r \<in> set d. r kf \<noteq> None \<Longrightarrow> \<exists>eps. groupby_episode d kf = Inr eps"
proof (induction d kf rule: groupby_episode.induct)
  case (1 kf)
  then show ?case by simp
next
  case (2 x xs kf)
  then obtain k where k: "x kf = Some k" by auto
  from 2(2) have "\<forall>r \<in> set xs. r kf \<noteq> None" by simp
  from collect_group_total[OF this] obtain g rest where c: "collect_group kf k xs = Inr (g, rest)"
    by blast
  from collect_group_split[OF c] 2(2) have "\<forall>r \<in> set rest. r kf \<noteq> None" by auto
  from "2.IH"[OF k c refl this] obtain eps' where "groupby_episode rest kf = Inr eps'" by blast
  with k c show ?case by simp
qed

text \<open>A record without the key field makes the Grouper raise KeyError.\<close>

lemma groupby_episode_KeyError:
  "\<exists>r \<in> set d. r kf = None \<Longrightarrow> groupby_episode d kf = Inl KeyError"
proof (induction d kf rule: groupby_episode.induct)
  case (1 kf)
  then show ?case by simp
next
  case (2 x xs kf)
  show ?case
  proof (cases "x kf")
    case None
    then show ?thesis by simp
  next
    case (Some k)
    show ?thesis
    proof (cases "collect_group kf k xs")
      case (Inl e)
      then have "e = KeyError" by (rule collect_group_error)
      with Some Inl show ?thesis by simp
    next
      case (Inr p)
      then obtain g rest where c: "collect_group kf k xs = Inr (g, rest)" by (cases p) simp
      from collect_group_split[OF c] 2(2) Some have "\<exists>r \<in> set rest. r kf = None" by auto
      from "2.IH"[OF Some c refl this] Some c show ?thesis by simp
    qed
  qed
qed

lemma groupby_episode_concat_runs:
  "is_runs kf runs \<Longrightarrow> groupby_episode (concat runs) kf = Inr runs"
proof (induction runs)
  case Nil
  then show ?case by simp
next
  case (Cons g gs)
  from Cons.prems have run: "is_run kf g" and rest: "is_runs kf gs"
    and adj: "distinct_adj (map (group_key kf) (g # gs))"
    by (auto simp: is_runs_def dest: distinct_adj_ConsD)
  from run obtain x g' k where g: "g = x # g'" and k: "x kf = Some k"
    and all: "\<forall>r \<in> set g'. r kf = Some k"
    by (cases g) (auto simp: is_run_def group_key_def list_all_iff)
  have nxt: "case concat gs of [] \<Rightarrow> True | y # _ \<Rightarrow> y kf \<noteq> None \<and> y kf \<noteq> Some k"
  proof (cases gs)
    case Nil
    then show ?thesis by simp
  next
    case (Cons h hs)
    with rest have "is_run kf h" by (simp add: is_runs_def)
    then obtain y ys where h: "h = y # ys" and "y kf \<noteq> None"
      by (cases h) (auto simp: is_run_def group_key_def)
    moreover from adj Cons h g k have "y kf \<noteq> Some k" by (auto simp: group_key_def)
    ultimately show ?thesis using Cons by simp
  qed
  from collect_group_append[OF all nxt] Cons.IH[OF rest] g k show ?case by simp
qed

lemma is_run_key:
  "is_run kf g \<Longrightarrow> r \<in> set g \<Longrightarrow> r kf = group_key kf g"
  by (simp add: is_run_def list_all_iff)

lemma key_group_exists:
  assumes "list_all (is_run kf) gs" "b \<in> set (concat gs)" "b kf = Some k"
  shows "1 \<le> length (filter (\<lambda>g. group_key kf g = Some k) gs)"
proof -
  from assms(2) obtain g where g: "g \<in> set gs" "b \<in> set g" by auto
  with assms(1) have "is_run kf g" by (simp add: list_all_iff)
  from is_run_key[OF this g(2)] assms(3) have "group_key kf g = Some k" by simp
  with g(1) have "g \<in> set (filter (\<lambda>g. group_key kf g = Some k) gs)" by simp
  then have "0 < length (filter (\<lambda>g. group_key kf g = Some k) gs)"
    by (simp only: length_pos_if_in_set)
  then show ?thesis by (simp only: One_nat_def Suc_le_eq)
qed

lemma separated_key_groups:
  assumes "list_all (is_run kf) gs" "concat gs = xs @ a # ys @ b # zs"
    "a kf = Some k" "b kf = Some k" "y \<in> set ys" "y kf \<noteq> Some k"
  shows "2 \<le> length (filter (\<lambda>g. group_key kf g = Some k) gs)"
  using assms(1,2)
proof (induction gs arbitrary: xs)
  case Nil
  then show ?case by simp
next
  case (Cons g gs)
  from Cons.prems have run: "is_run kf g" and runs: "list_all (is_run kf) gs"
    and eq: "g @ concat gs = xs @ a # ys @ b # zs" by simp_all
  from eq obtain us where
    "(g = xs @ us \<and> us @ concat gs = a # ys @ b # zs) \<or>
     (g @ us = xs \<and> concat gs = us @ a # ys @ b # zs)"
    by (auto simp: append_eq_append_conv2)
  then consider
      (later) us' where "concat gs = us' @ a # ys @ b # zs"
    | (here) us' where "g = xs @ a # us'" "us' @ concat gs = ys @ b # zs"
    by (cases us) auto
  then show ?case
  proof cases
    case later
    from Cons.IH[OF runs later] show ?thesis by simp
  next
    case here
    from here(1) is_run_key[OF run, of a] assms(3) have gk: "group_key kf g = Some k" by simp
    from here(2) obtain vs where
      "(us' = ys @ vs \<and> vs @ concat gs = b # zs) \<or> (us' @ vs = ys \<and> concat gs = vs @ b # zs)"
      by (auto simp: append_eq_append_conv2)
    then show ?thesis
    proof
      assume "us' = ys @ vs \<and> vs @ concat gs = b # zs"
      with here(1) assms(5) have "y \<in> set g" by simp
      from is_run_key[OF run this] gk assms(6) show ?thesis by simp
    next
      assume "us' @ vs = ys \<and> concat gs = vs @ b # zs"
      then have "b \<in> set (concat gs)" by simp
      from key_group_exists[OF runs this assms(4)] gk show ?thesis by simp
    qed
  qed
qed

section \<open>Lemmas about the Window Expander\<close>

lemma strs_of_PStr: "strs_of (map PStr ss) = Some ss"
  by (induction ss) simp_all

lemma str_join_PStr: "str_join (map PStr ss) = Inr (space_join ss)"
  by (simp add: str_join_def strs_of_PStr)

lemma map_result_Inr:
  "(\<And>x. x \<in> set xs \<Longrightarrow> f x = Inr (h x)) \<Longrightarrow> map_result f xs = Inr (map h xs)"
  by (induction xs) simp_all

lemma py_slice_map: "py_slice (map f xs) a b = map f (py_slice xs a b)"
  by (simp add: py_slice_def Let_def take_map drop_map)

lemma upto_nth_window:
  assumes "0 \<le> lo" "hi < int (length g)"
  shows "map (\<lambda>j. g ! nat j) [lo..hi] = take (nat (hi + 1 - lo)) (drop (nat lo) g)"
proof (rule nth_equalityI)
  show "length (map (\<lambda>j. g ! nat j) [lo..hi]) = length (take (nat (hi + 1 - lo)) (drop (nat lo) g))"
    using assms by auto
next
  fix k assume "k < length (map (\<lambda>j. g ! nat j) [lo..hi])"
  then have k: "int k < hi + 1 - lo" by simp
  then have "[lo..hi] ! k = lo + int k" by (simp add: nth_upto)
  with k assms show "map (\<lambda>j. g ! nat j) [lo..hi] ! k = take (nat (hi + 1 - lo)) (drop (nat lo) g) ! k"
    by (simp add: nat_add_distrib)
qed

lemma py_slice_window:
  assumes "0 \<le> w" "i < length g"
  shows "py_slice g (max 0 (int i - w)) (int i + w + 1) =
         map (\<lambda>j. g ! nat j) (window_positions (length g) w i)"
proof -
  let ?lo = "max 0 (int i - w)" and ?hi = "min (int (length g) - 1) (int i + w)"
  have lo: "0 \<le> ?lo" and hi: "?hi < int (length g)" by simp_all
  have "py_slice g ?lo (int i + w + 1) = take (nat (?hi + 1 - ?lo)) (drop (nat ?lo) g)"
    using assms by (simp add: py_slice_def Let_def min_def max_def)
  with upto_nth_window[OF lo hi] show ?thesis
    by (simp add: window_positions_def)
qed

lemma expand_episode_window:
  assumes "0 \<le> w"
  shows "expand_episode (map PStr g) w = Inr (map (window_text g w) [0..<length g])"
  unfolding expand_episode_def
proof (simp only: length_map, rule map_result_Inr)
  fix i assume "i \<in> set [0..<length g]"
  then have "i < length g" by simp
  from py_slice_window[OF assms this]
  show "(let start = max 0 (int i - w); end = int i + w + 1
         in str_join (py_slice (map PStr g) start end)) = Inr (window_text g w i)"
    by (simp add: Let_def py_slice_map str_join_PStr window_text_def)
qed

lemma expand_chunk_list_window:
  assumes "0 \<le> w"
  shows "expand_chunk_list (map (map PStr) cl) w =
         Inr (map (\<lambda>g. map (window_text g w) [0..<length g]) cl)"
proof -
  have "map_result (\<lambda>episode. expand_episode episode w) (map (map PStr) cl) =
        Inr (map (\<lambda>e. map (window_text (map (\<lambda>v. case v of PStr s \<Rightarrow> s | _ \<Rightarrow> []) e) w) [0..<length e]) (map (map PStr) cl))"
    by (rule map_result_Inr) (auto simp: expand_episode_window[OF assms] comp_def)
  then show ?thesis
    by (simp add: expand_chunk_list_def comp_def)
qed

lemma window_text_zero: "i < length g \<Longrightarrow> window_text g 0 i = g ! i"
  by (simp add: window_text_def window_positions_def)

lemma expand_zero: "expand_chunk_list (map (map PStr) cl) 0 = Inr cl"
proof -
  have "map (\<lambda>g. map (window_text g 0) [0..<length g]) cl = map (\<lambda>g. g) cl"
    by (rule map_cong) (auto simp: window_text_zero intro: nth_equalityI)
  then show ?thesis by (simp add: expand_chunk_list_window)
qed

lemma map_result_error:
  "map_result f xs = Inl e \<Longrightarrow> \<exists>x \<in> set xs. f x = Inl e"
  by (induction xs) (auto split: sum.splits)

lemma get_content_PStr:
  "map (\<lambda>r. r ''content'') g = map (\<lambda>s. Some (PStr s)) ss \<Longrightarrow>
   map_result get_content g = Inr (map PStr ss)"
  by (induction g arbitrary: ss) (auto simp: get_content_def)

lemma extract_content_PStr:
  "map (map (\<lambda>r. r ''content'')) eps = map (map (\<lambda>s. Some (PStr s))) cl \<Longrightarrow>
   extract_content eps = Inr (map (map PStr) cl)"
  unfolding extract_content_def
  by (induction eps arbitrary: cl) (auto simp: get_content_PStr)

lemma create_from_chunk_list:
  "cl \<noteq> [] \<Longrightarrow> \<not> truthy data \<Longrightarrow>
   create_expanded_content data (Some cl) w ne kf = expand_chunk_list (map (map PStr) cl) w"
  by (auto simp: create_expanded_content_def truthy_def split: option.splits list.splits)

lemma create_from_data:
  "d \<noteq> [] \<Longrightarrow>
   create_expanded_content (Some d) chunk_list w ne kf =
     (case groupby_episode d kf of
        Inl e \<Rightarrow> Inl e
      | Inr episodes \<Rightarrow>
          if int (length episodes) = ne then
            (case extract_content episodes of
               Inl e \<Rightarrow> Inl e
             | Inr chunks \<Rightarrow> expand_chunk_list chunks w)
          else Inl AssertionError)"
  by (cases d) (simp_all add: create_expanded_content_def truthy_def split: sum.splits)

lemma create_falsy:
  "\<not> truthy data \<Longrightarrow> \<not> truthy chunk_list \<Longrightarrow>
   create_expanded_content data chunk_list w ne kf = Inl ValueError"
  by (simp add: create_expanded_content_def)

lemma expand_episode_error: "expand_episode ep w = Inl e \<Longrightarrow> e = TypeError"
  unfolding expand_episode_def
  by (drule map_result_error) (auto simp: str_join_def Let_def split: option.splits)

lemma expand_chunk_list_error: "expand_chunk_list cl w = Inl e \<Longrightarrow> e = TypeError"
  unfolding expand_chunk_list_def
  by (drule map_result_error) (auto dest: expand_episode_error)

lemma extract_content_error: "extract_content eps = Inl e \<Longrightarrow> e = KeyError"
  unfolding extract_content_def
  by (drule map_result_error)
     (auto dest!: map_result_error simp: get_content_def split: option.splits)

lemma groupby_episode_error: "groupby_episode d kf = Inl e \<Longrightarrow> e = KeyError"
proof (induction d kf rule: groupby_episode.induct)
  case (1 kf)
  then show ?case by simp
next
  case (2 x xs kf)
  then show ?case
    by (auto split: option.splits sum.splits prod.splits dest: collect_group_error)
qed

lemma create_ValueError_cases:
  "create_expanded_content data chunk_list w ne kf = Inl ValueError \<longleftrightarrow>
     \<not> truthy data \<and> \<not> truthy chunk_list"
proof (cases "truthy data")
  case True
  then obtain d where d: "data = Some d" "d \<noteq> []"
    by (auto simp: truthy_def split: option.splits)
  have "create_expanded_content (Some d) chunk_list w ne kf \<noteq> Inl ValueError"
    using d(2)
    by (auto simp: create_from_data split: sum.splits if_splits
        dest: groupby_episode_error extract_content_error expand_chunk_list_error)
  with d True show ?thesis by simp
next
  case False
  show ?thesis
  proof (cases "truthy chunk_list")
    case True
    then obtain cl where cl: "chunk_list = Some cl" "cl \<noteq> []"
      by (auto simp: truthy_def split: option.splits)
    with False have "create_expanded_content data chunk_list w ne kf \<noteq> Inl ValueError"
      by (auto simp: create_from_chunk_list dest: expand_chunk_list_error)
    with True show ?thesis by simp
  next
    case f2: False
    with False show ?thesis
      by (simp add: create_falsy)
  qed
qed

lemma truthy_iff: "truthy x \<longleftrightarrow> x \<noteq> None \<and> x \<noteq> Some []"
  by (simp add: truthy_def split: option.splits)

lemma window_abcd:
  "window_text [''A'', ''B'', ''C'', ''D''] 1 0 = ''A B''"
  "window_text [''A'', ''B'', ''C'', ''D''] 1 (Suc 0) = ''A B C''"
  "window_text [''A'', ''B'', ''C'', ''D''] 1 (Suc (Suc 0)) = ''B C D''"
  "window_text [''A'', ''B'', ''C'', ''D''] 1 (Suc (Suc (Suc 0))) = ''C D''"
  by code_simp+

lemma groupby_episode_abcd: "groupby_episode episode_abcd ''video_id'' = Inr [episode_abcd]"
  by (simp add: episode_abcd_def chunk_def)

lemma content_abcd:
  "map (map (\<lambda>r. r ''content'')) [episode_abcd] =
   map (map (\<lambda>s. Some (PStr s))) [[''A'', ''B'', ''C'', ''D'']]"
  by (simp add: episode_abcd_def chunk_def)

lemma is_runs_193: "is_runs ''video_id'' runs_193"
proof -
  have "inj_on (\<lambda>i. Some (PInt (int i))) (set [0..<193])"
    by (simp add: inj_on_def)
  moreover have "distinct_adj [0..<193]"
    by (simp add: distinct_adj_conv_nth)
  ultimately have "distinct_adj (map (\<lambda>i. Some (PInt (int i))) [0..<193])"
    by (simp only: distinct_adj_map_iff)
  moreover have "map (group_key ''video_id'') runs_193 = map (\<lambda>i. Some (PInt (int i))) [0..<193]"
    by (simp add: runs_193_def group_key_def chunk_def)
  moreover have "list_all (is_run ''video_id'') runs_193"
    by (simp add: runs_193_def list_all_iff is_run_def group_key_def chunk_def)
  ultimately show ?thesis by (simp add: is_runs_def)
qed

lemma concat_runs_not_Nil: "is_runs kf runs \<Longrightarrow> runs \<noteq> [] \<Longrightarrow> concat runs \<noteq> []"
  by (cases runs) (auto simp: is_runs_def is_run_def)

section \<open>Window Expander: the clamped window\<close>

text \<open>
  Claim C1. For a non-negative \<open>window_size\<close> \<open>w\<close> the Window Expander returns one
  list per episode group and one string per record of the group, and the string at
  position \<open>i\<close> of a group \<open>g\<close> of size \<open>n\<close> is the space-joined content of the
  positions \<open>max 0 (i - w)\<close> to \<open>min (n - 1) (i + w)\<close> inclusive, in ascending order
  (\<open>window_text\<close>); position \<open>i\<close> itself occurs in that range, and no position
  occurs twice. This holds for groups passed as a chunk list (with \<open>data\<close> absent or
  empty) and for the groups that the Grouper makes of raw records whose contents are
  strings. For the group
  \<open>[A, B, C, D]\<close> and \<open>w = 1\<close> the result is \<open>[A B, A B C, B C D, C D]\<close>.
\<close>

theorem window_expander_clamped_window:
  assumes "0 \<le> w"
  shows "((data = None \<or> data = Some []) \<and> cl \<noteq> [] \<longrightarrow>
            create_expanded_content data (Some cl) w ne kf =
              Inr (map (\<lambda>g. map (window_text g w) [0..<length g]) cl)) \<and>
         (d \<noteq> [] \<and> groupby_episode d kf = Inr eps \<and> int (length eps) = ne \<and>
          map (map (\<lambda>r. r ''content'')) eps = map (map (\<lambda>s. Some (PStr s))) cl \<longrightarrow>
            create_expanded_content (Some d) cl' w ne kf =
              Inr (map (\<lambda>g. map (window_text g w) [0..<length g]) cl)) \<and>
         (i < n \<longrightarrow>
            int i \<in> set (window_positions n w i) \<and> distinct (window_positions n w i) \<and>
            sorted (window_positions n w i)) \<and>
         create_expanded_content None (Some [[''A'', ''B'', ''C'', ''D'']]) 1 ne kf =
           Inr [[''A B'', ''A B C'', ''B C D'', ''C D'']]"
proof (intro conjI impI)
  assume "(data = None \<or> data = Some []) \<and> cl \<noteq> []"
  then have "cl \<noteq> []" and "\<not> truthy data" by (auto simp: truthy_def)
  then show "create_expanded_content data (Some cl) w ne kf =
      Inr (map (\<lambda>g. map (window_text g w) [0..<length g]) cl)"
    by (simp add: create_from_chunk_list expand_chunk_list_window[OF assms])
next
  assume h: "d \<noteq> [] \<and> groupby_episode d kf = Inr eps \<and> int (length eps) = ne \<and>
    map (map (\<lambda>r. r ''content'')) eps = map (map (\<lambda>s. Some (PStr s))) cl"
  then have "extract_content eps = Inr (map (map PStr) cl)"
    by (simp add: extract_content_PStr)
  with h show "create_expanded_content (Some d) cl' w ne kf =
      Inr (map (\<lambda>g. map (window_text g w) [0..<length g]) cl)"
    by (simp add: create_from_data expand_chunk_list_window[OF assms])
next
  assume "i < n"
  with assms show "int i \<in> set (window_positions n w i)"
    by (simp add: window_positions_def)
next
  show "distinct (window_positions n w i)"
    by (simp add: window_positions_def)
next
  show "sorted (window_positions n w i)"
    by (simp add: window_positions_def)
next
  have "create_expanded_content None (Some [[''A'', ''B'', ''C'', ''D'']]) 1 ne kf =
      Inr (map (\<lambda>g. map (window_text g 1) [0..<length g]) [[''A'', ''B'', ''C'', ''D'']])"
    by (simp only: create_from_chunk_list truthy_def expand_chunk_list_window
        option.case list.distinct not_False_eq_True zero_le_one)
  also have "\<dots> = Inr [[''A B'', ''A B C'', ''B C D'', ''C D'']]"
    by (simp add: window_abcd)
  finally show "create_expanded_content None (Some [[''A'', ''B'', ''C'', ''D'']]) 1 ne kf =
      Inr [[''A B'', ''A B C'', ''B C D'', ''C D'']]" .
qed

theorem window_expander_clamped_window_witness:
  "(0::int) \<le> 1 \<and> [[''A'', ''B'', ''C'', ''D'']] \<noteq> [] \<and>
   create_expanded_content None (Some [[''A'', ''B'', ''C'', ''D'']]) 1 1 ''video_id'' =
     Inr [[''A B'', ''A B C'', ''B C D'', ''C D'']] \<and>
   episode_abcd \<noteq> [] \<and> groupby_episode episode_abcd ''video_id'' = Inr [episode_abcd] \<and>
   int (length [episode_abcd]) = 1 \<and>
   create_expanded_content (Some episode_abcd) None 1 1 ''video_id'' =
     Inr [[''A B'', ''A B C'', ''B C D'', ''C D'']] \<and>
   (1::nat) < 4 \<and> int 1 \<in> set (window_positions 4 1 1) \<and> distinct (window_positions 4 1 1)"
proof -
  have w: "(0::int) \<le> 1" by simp
  have ne: "episode_abcd \<noteq> []" by (simp add: episode_abcd_def)
  note t = window_expander_clamped_window [OF w, of None "[[''A'', ''B'', ''C'', ''D'']]" 1
      "''video_id''" episode_abcd "[episode_abcd]" None 1 4]
  from t ne groupby_episode_abcd content_abcd show ?thesis
    by (simp add: window_abcd)
qed

section \<open>Window Expander: window size zero\<close>

text \<open>
  Claim C2. With \<open>window_size = 0\<close> the Window Expander is the identity on content: the
  result is the chunk list itself, so the expanded content at every position of every
  group equals the original content at that position. This holds for a chunk list
  passed by the caller and for the groups made of raw records whose contents are
  strings.
\<close>

theorem window_expander_zero_identity:
  "((data = None \<or> data = Some []) \<and> cl \<noteq> [] \<longrightarrow>
      create_expanded_content data (Some cl) 0 ne kf = Inr cl) \<and>
   (d \<noteq> [] \<and> groupby_episode d kf = Inr eps \<and> int (length eps) = ne \<and>
    map (map (\<lambda>r. r ''content'')) eps = map (map (\<lambda>s. Some (PStr s))) cl \<longrightarrow>
      create_expanded_content (Some d) cl' 0 ne kf = Inr cl)"
proof (intro conjI impI)
  assume "(data = None \<or> data = Some []) \<and> cl \<noteq> []"
  then have "cl \<noteq> []" and "\<not> truthy data" by (auto simp: truthy_def)
  then show "create_expanded_content data (Some cl) 0 ne kf = Inr cl"
    by (simp add: create_from_chunk_list expand_zero)
next
  assume h: "d \<noteq> [] \<and> groupby_episode d kf = Inr eps \<and> int (length eps) = ne \<and>
    map (map (\<lambda>r. r ''content'')) eps = map (map (\<lambda>s. Some (PStr s))) cl"
  then have "extract_content eps = Inr (map (map PStr) cl)"
    by (simp add: extract_content_PStr)
  with h show "create_expanded_content (Some d) cl' 0 ne kf = Inr cl"
    by (simp add: create_from_data expand_zero)
qed

theorem window_expander_zero_identity_witness:
  "[[''A'', ''B'', ''C'', ''D'']] \<noteq> [] \<and>
   create_expanded_content None (Some [[''A'', ''B'', ''C'', ''D'']]) 0 1 ''video_id'' =
     Inr [[''A'', ''B'', ''C'', ''D'']] \<and>
   episode_abcd \<noteq> [] \<and> groupby_episode episode_abcd ''video_id'' = Inr [episode_abcd] \<and>
   int (length [episode_abcd]) = 1 \<and>
   create_expanded_content (Some episode_abcd) None 0 1 ''video_id'' =
     Inr [[''A'', ''B'', ''C'', ''D'']]"
proof -
  have ne: "episode_abcd \<noteq> []" by (simp add: episode_abcd_def)
  note t = window_expander_zero_identity [of None "[[''A'', ''B'', ''C'', ''D'']]" 1 "''video_id''"
      episode_abcd "[episode_abcd]" None]
  from t ne groupby_episode_abcd content_abcd show ?thesis
    by simp
qed

section \<open>Grouper: the groups partition the input\<close>

text \<open>
  Claim C3. For every input sequence of records (each carrying the key field) the
  Grouper returns groups that partition the input: concatenating the groups in output
  order gives back the input sequence exactly, so no record is dropped, duplicated or
  moved; the groups are the runs of the input (each group is non-empty, its records
  all carry the key of its first record, and neighbouring groups carry different keys),
  so together with the concatenation the groups appear in the order in which their runs
  first occur; the sum of the group sizes is the input length; no group is empty.
\<close>

theorem groupby_episode_partition:
  assumes "\<forall>r \<in> set data. r key_field \<noteq> None"
  shows "\<exists>episodes. groupby_episode data key_field = Inr episodes \<and>
           concat episodes = data \<and>
           is_runs key_field episodes \<and>
           sum_list (map length episodes) = length data \<and>
           [] \<notin> set episodes"
proof -
  from groupby_episode_total[OF assms] obtain episodes
    where e: "groupby_episode data key_field = Inr episodes" by blast
  from groupby_episode_sound[OF e] have c: "concat episodes = data"
    and r: "is_runs key_field episodes" by simp_all
  from c have "sum_list (map length episodes) = length data"
    by (simp add: length_concat [symmetric])
  moreover from r have "[] \<notin> set episodes"
    by (auto simp: is_runs_def list_all_iff is_run_def)
  ultimately show ?thesis using e c r by simp
qed

theorem groupby_episode_partition_witness:
  "list_all (\<lambda>r. r ''video_id'' \<noteq> None) two_episodes \<and>
   (\<exists>episodes. groupby_episode two_episodes ''video_id'' = Inr episodes \<and>
      concat episodes = two_episodes \<and>
      is_runs ''video_id'' episodes \<and>
      sum_list (map length episodes) = length two_episodes \<and>
      [] \<notin> set episodes)"
proof -
  have h: "\<forall>r \<in> set two_episodes. r ''video_id'' \<noteq> None"
    by (simp add: two_episodes_def chunk_def)
  from h groupby_episode_partition [OF h] show ?thesis by (simp add: list_all_iff)
qed

section \<open>Grouper: run-length semantics\<close>

text \<open>
  Claim C4. The Grouper groups by runs, not by key. Every group it returns is a
  non-empty contiguous stretch of the input whose records all carry one key, and
  neighbouring groups carry different keys, so every group is a maximal run, in input
  order. When two records with key \<open>k\<close> are separated by a record with another key,
  the output has at least two groups with key \<open>k\<close>. Conversely every run decomposition
  of the input (also one in which runs that are not neighbours share a key) is returned
  as it is.
\<close>

theorem groupby_episode_run_length:
  "(groupby_episode data key_field = Inr episodes \<longrightarrow>
      concat episodes = data \<and> is_runs key_field episodes) \<and>
   (groupby_episode (xs @ a # ys @ b # zs) key_field = Inr episodes' \<and>
    a key_field = Some k \<and> b key_field = Some k \<and> y \<in> set ys \<and> y key_field \<noteq> Some k \<longrightarrow>
      2 \<le> length (filter (\<lambda>g. group_key key_field g = Some k) episodes')) \<and>
   (is_runs key_field runs \<longrightarrow> groupby_episode (concat runs) key_field = Inr runs)"
proof (intro conjI impI)
  assume "groupby_episode data key_field = Inr episodes"
  from groupby_episode_sound[OF this]
  show "concat episodes = data" and "is_runs key_field episodes" by simp_all
next
  assume h: "groupby_episode (xs @ a # ys @ b # zs) key_field = Inr episodes' \<and>
    a key_field = Some k \<and> b key_field = Some k \<and> y \<in> set ys \<and> y key_field \<noteq> Some k"
  then have "concat episodes' = xs @ a # ys @ b # zs" and "list_all (is_run key_field) episodes'"
    using groupby_episode_sound[of "xs @ a # ys @ b # zs" key_field episodes']
    by (simp_all add: is_runs_def)
  with h show "2 \<le> length (filter (\<lambda>g. group_key key_field g = Some k) episodes')"
    using separated_key_groups[of key_field episodes' xs a ys b zs k y] by simp
next
  assume "is_runs key_field runs"
  then show "groupby_episode (concat runs) key_field = Inr runs"
    by (rule groupby_episode_concat_runs)
qed

theorem groupby_episode_run_length_witness:
  "groupby_episode interleaved ''video_id'' =
     Inr [[chunk (PStr ''e1'') ''A''], [chunk (PStr ''e2'') ''B''], [chunk (PStr ''e1'') ''C'']] \<and>
   is_runs ''video_id''
     [[chunk (PStr ''e1'') ''A''], [chunk (PStr ''e2'') ''B''], [chunk (PStr ''e1'') ''C'']] \<and>
   chunk (PStr ''e1'') ''A'' ''video_id'' = Some (PStr ''e1'') \<and>
   chunk (PStr ''e1'') ''C'' ''video_id'' = Some (PStr ''e1'') \<and>
   chunk (PStr ''e2'') ''B'' ''video_id'' \<noteq> Some (PStr ''e1'') \<and>
   2 \<le> length (filter (\<lambda>g. group_key ''video_id'' g = Some (PStr ''e1''))
     [[chunk (PStr ''e1'') ''A''], [chunk (PStr ''e2'') ''B''], [chunk (PStr ''e1'') ''C'']])"
proof -
  let ?A = "chunk (PStr ''e1'') ''A''" and ?B = "chunk (PStr ''e2'') ''B''"
    and ?C = "chunk (PStr ''e1'') ''C''"
  have g: "groupby_episode interleaved ''video_id'' = Inr [[?A], [?B], [?C]]"
    by (simp add: interleaved_def chunk_def)
  have i: "interleaved = [] @ ?A # [?B] @ ?C # []"
    by (simp add: interleaved_def)
  have k: "?A ''video_id'' = Some (PStr ''e1'')" "?C ''video_id'' = Some (PStr ''e1'')"
    "?B ''video_id'' \<noteq> Some (PStr ''e1'')"
    by (simp_all add: chunk_def)
  note t = groupby_episode_run_length [of interleaved "''video_id''" "[[?A], [?B], [?C]]"
      "[]" ?A "[?B]" ?C "[]" "[[?A], [?B], [?C]]" "PStr ''e1''" ?B "[[?A], [?B], [?C]]"]
  from t g k show ?thesis
    unfolding i [symmetric] by simp
qed

section \<open>Window Expander: no usable input\<close>

text \<open>
  Claim C5 says that the Window Expander raises the invalid-argument error exactly when
  both inputs are absent. The guard is \<^verbatim>\<open>if not data and not chunk_list\<close>, and an
  empty list is false in Python: with \<open>data = []\<close> and no chunk list, an input is
  supplied and ValueError is raised all the same.
\<close>

theorem create_expanded_content_empty_data_ValueError:
  "\<not> (create_expanded_content (Some []) None
          default_window_size default_num_episodes default_key_field = Inl ValueError \<longleftrightarrow>
        (Some [] :: pydict list option) = None \<and> (None :: string list list option) = None)"
  by (simp add: create_expanded_content_def truthy_def)

text \<open>
  Claim C5 as amended. The Window Expander raises ValueError if and only if each of
  the two inputs is absent or empty; when \<open>data\<close> or \<open>chunk_list\<close> is a non-empty
  list, no ValueError is raised.
\<close>

theorem create_expanded_content_ValueError_iff:
  "create_expanded_content data chunk_list w ne kf = Inl ValueError \<longleftrightarrow>
     (data = None \<or> data = Some []) \<and> (chunk_list = None \<or> chunk_list = Some [])"
  by (simp add: create_ValueError_cases truthy_iff)

theorem create_expanded_content_ValueError_iff_witness:
  "create_expanded_content None (Some []) 1 193 ''video_id'' = Inl ValueError \<and>
   create_expanded_content (Some episode_abcd) None 1 193 ''video_id'' \<noteq> Inl ValueError"
proof -
  have "episode_abcd \<noteq> []" by (simp add: episode_abcd_def)
  with create_expanded_content_ValueError_iff [of None "Some []" 1 193 "''video_id''"]
    create_expanded_content_ValueError_iff [of "Some episode_abcd" None 1 193 "''video_id''"]
  show ?thesis by simp
qed

section \<open>Grouper: empty input\<close>

text \<open>
  Claim C6. For the empty input sequence the Grouper returns the empty sequence of
  groups and raises no error, whatever the key field.
\<close>

theorem groupby_episode_empty: "groupby_episode [] key_field = Inr []"
  by simp

section \<open>Field Joiner: the length check\<close>

text \<open>
  Claim C7 says that the join proceeds when the flattened expanded content and the
  records have the same length, and that a mismatch fails the length assertion. The
  check assigns \<^verbatim>\<open>data_legnth\<close> and compares with \<^verbatim>\<open>data_length\<close>, a name that no
  cell of the notebook binds: with one expanded string for one record the check raises
  NameError instead of passing, and with a mismatch it raises NameError instead of the
  assertion's error.
\<close>

theorem azimuth_check_NameError:
  "azimuth_check Map.empty (Some [''A'']) [chunk (PStr ''e1'') ''A''] = Inl NameError \<and>
   azimuth_check Map.empty (Some [''A'', ''B'']) [chunk (PStr ''e1'') ''A''] = Inl NameError"
  by (simp add: azimuth_check_def)

section \<open>Field Joiner: the join\<close>

text \<open>
  Claim C8 says that every output record of the Field Joiner has the field
  \<^verbatim>\<open>expanded_content\<close>. The function \<^verbatim>\<open>join_expanded_content\<close> of the notebook returns
  its argument \<open>data\<close> as it is: a record without the field comes back without it, and
  the notebook's own post-check fails on the result.
\<close>

theorem join_expanded_content_unchanged:
  "join_expanded_content [chunk (PStr ''e1'') ''A''] [''A''] = [chunk (PStr ''e1'') ''A''] \<and>
   chunk (PStr ''e1'') ''A'' ''expanded_content'' = None \<and>
   post_check (join_expanded_content [chunk (PStr ''e1'') ''A''] [''A'']) = Inl AssertionError"
  by (simp add: join_expanded_content_def post_check_def dict_get_def chunk_def)

section \<open>Window Expander: the episode count check\<close>

text \<open>
  Claim C9 says that, when raw records are supplied and the number of groups differs
  from \<open>num_episodes\<close>, the call fails with the assertion's error. The Grouper and the
  assertion run only under \<^verbatim>\<open>if data:\<close>. With \<open>data = []\<close> (the Grouper makes no
  group of it, and 0 is not 193) and a chunk list, the call returns the expansion of the
  chunk list and no assertion fails.
\<close>

theorem create_expanded_content_empty_data_no_assert:
  "groupby_episode [] ''video_id'' = Inr [] \<and>
   int (length ([] :: pydict list list)) \<noteq> 193 \<and>
   create_expanded_content (Some []) (Some [[''a'', ''b'']]) 0 193 ''video_id'' =
     Inr [[''a'', ''b'']]"
proof -
  have "create_expanded_content (Some []) (Some [[''a'', ''b'']]) 0 193 ''video_id'' =
      expand_chunk_list (map (map PStr) [[''a'', ''b'']]) 0"
    by (rule create_from_chunk_list) (simp_all add: truthy_def)
  then show ?thesis by (simp only: expand_zero) simp
qed

text \<open>
  Claim C9 as amended. When a non-empty list of raw records is supplied and the number
  of groups that the Grouper makes of it differs from \<open>num_episodes\<close> (default 193),
  the call fails with AssertionError, whatever the contents of the records, the chunk
  list and the window size: nothing is expanded. Given 193 contiguous runs, each of
  length at least 1 and neighbouring runs with different keys, the Grouper returns
  exactly these 193 groups in their order, and the check against the default
  \<open>num_episodes\<close> passes.
\<close>

theorem create_expanded_content_episode_count:
  "(d \<noteq> [] \<and> groupby_episode d kf = Inr eps \<and> int (length eps) \<noteq> ne \<longrightarrow>
      create_expanded_content (Some d) cl w ne kf = Inl AssertionError) \<and>
   (is_runs kf runs \<and> length runs = 193 \<longrightarrow>
      groupby_episode (concat runs) kf = Inr runs \<and>
      create_expanded_content (Some (concat runs)) cl w default_num_episodes kf
        \<noteq> Inl AssertionError)"
proof (intro conjI impI)
  assume "d \<noteq> [] \<and> groupby_episode d kf = Inr eps \<and> int (length eps) \<noteq> ne"
  then show "create_expanded_content (Some d) cl w ne kf = Inl AssertionError"
    by (simp add: create_from_data)
next
  assume h: "is_runs kf runs \<and> length runs = 193"
  then show g: "groupby_episode (concat runs) kf = Inr runs"
    by (simp add: groupby_episode_concat_runs)
  from h have "is_runs kf runs" and "runs \<noteq> []" by auto
  then have "concat runs \<noteq> []" by (rule concat_runs_not_Nil)
  with g h show "create_expanded_content (Some (concat runs)) cl w default_num_episodes kf
      \<noteq> Inl AssertionError"
    by (auto simp: create_from_data default_num_episodes_def split: sum.splits
        dest: extract_content_error expand_chunk_list_error)
qed

theorem create_expanded_content_episode_count_witness:
  "episode_abcd \<noteq> [] \<and> groupby_episode episode_abcd ''video_id'' = Inr [episode_abcd] \<and>
   int (length [episode_abcd]) \<noteq> 193 \<and>
   create_expanded_content (Some episode_abcd) None 1 193 ''video_id'' = Inl AssertionError \<and>
   is_runs ''video_id'' runs_193 \<and> length runs_193 = 193 \<and>
   groupby_episode (concat runs_193) ''video_id'' = Inr runs_193 \<and>
   create_expanded_content (Some (concat runs_193)) None 1 default_num_episodes ''video_id''
     \<noteq> Inl AssertionError"
proof -
  have ne: "episode_abcd \<noteq> []" by (simp add: episode_abcd_def)
  have l: "length runs_193 = 193" by (simp add: runs_193_def)
  note t = create_expanded_content_episode_count [of episode_abcd "''video_id''" "[episode_abcd]"
      193 None 1 runs_193]
  from t ne l groupby_episode_abcd is_runs_193 show ?thesis by simp
qed

section \<open>Window Expander: data takes precedence over the chunk list\<close>

text \<open>
  Claim C10 says that a chunk list supplied together with raw records is ignored. With
  \<open>data = []\<close> the branch \<^verbatim>\<open>if data:\<close> is not taken and the supplied chunk list is
  expanded, whereas the call with \<open>data = []\<close> alone raises ValueError.
\<close>

theorem create_expanded_content_empty_data_uses_chunk_list:
  "create_expanded_content (Some []) (Some [[''a'']]) 1 193 ''video_id'' = Inr [[''a'']] \<and>
   create_expanded_content (Some []) None 1 193 ''video_id'' = Inl ValueError"
  by (simp add: create_expanded_content_def truthy_def expand_chunk_list_def
      expand_episode_def py_slice_def str_join_def)

text \<open>
  Claim C10 as amended. When \<open>data\<close> is a non-empty list of raw records, a chunk list
  supplied with it is ignored: the result, an error included, is that of the call with
  \<open>data\<close> only.
\<close>

theorem create_expanded_content_data_overrides:
  "d \<noteq> [] \<Longrightarrow>
   create_expanded_content (Some d) chunk_list w ne kf =
     create_expanded_content (Some d) None w ne kf"
  by (simp add: create_from_data)

theorem create_expanded_content_data_overrides_witness:
  "episode_abcd \<noteq> [] \<and>
   create_expanded_content (Some episode_abcd) (Some [[''x'', ''y'']]) 1 1 ''video_id'' =
     create_expanded_content (Some episode_abcd) None 1 1 ''video_id''"
proof -
  have ne: "episode_abcd \<noteq> []" by (simp add: episode_abcd_def)
  from ne create_expanded_content_data_overrides [OF ne, of "Some [[''x'', ''y'']]" 1 1 "''video_id''"]
  show ?thesis by simp
qed

end
